theory Spec2Isabelle
  imports Main "HOL-Library.Sublist"
begin

section \<open>Python strings and paths\<close>

text \<open>
  A Python \<open>str\<close> is modelled as a \<open>string\<close> whose characters are the code points
  below 256. The helpers below are the library functions the program calls on strings,
  with the behaviour of CPython on such strings.
\<close>

datatype error = IndexError | IntegrityError | NoFileInRequest | JSONDecodeError
  | FileNotFoundError
  | PptxReadError | UploadException

text \<open>\<open>s.split(c)\<close>: the pieces between the occurrences of \<open>c\<close>; never empty.\<close>

fun split_on :: "char \<Rightarrow> string \<Rightarrow> string list" where
  "split_on c [] = [[]]"
| "split_on c (x # xs) =
     (if x = c then [] # split_on c xs
      else (case split_on c xs of [] \<Rightarrow> [[x]] | p # ps \<Rightarrow> (x # p) # ps))"

text \<open>\<open>xs[i]\<close> with Python's negative indices; out of range raises \<open>IndexError\<close>.\<close>

definition py_index :: "'a list \<Rightarrow> int \<Rightarrow> error + 'a" where
  "py_index xs i =
     (if 0 \<le> i \<and> i < int (length xs) then Inr (xs ! nat i)
      else if i < 0 \<and> - int (length xs) \<le> i then Inr (xs ! nat (int (length xs) + i))
      else Inl IndexError)"

text \<open>The characters \<open>str.isspace\<close> accepts among the code points below 256.\<close>

definition is_space :: "char \<Rightarrow> bool" where
  "is_space c \<longleftrightarrow> c \<in> set [CHR 0x09, CHR 0x0A, CHR 0x0B, CHR 0x0C, CHR 0x0D,
     CHR 0x1C, CHR 0x1D, CHR 0x1E, CHR 0x1F, CHR 0x20, CHR 0x85, CHR 0xA0]"

definition strip :: "string \<Rightarrow> string" where
  "strip s = rev (dropWhile is_space (rev (dropWhile is_space s)))"

definition char_lower :: "char \<Rightarrow> char" where
  "char_lower c =
     (let n = (of_char c :: nat)
      in if (65 \<le> n \<and> n \<le> 90) \<or> (192 \<le> n \<and> n \<le> 222 \<and> n \<noteq> 215)
         then char_of (n + 32) else c)"

definition lower :: "string \<Rightarrow> string" where
  "lower s = map char_lower s"

text \<open>\<open>x in s\<close> on strings: \<open>x\<close> occurs in \<open>s\<close> as a contiguous piece.\<close>

fun str_contains :: "string \<Rightarrow> string \<Rightarrow> bool" where
  "str_contains x [] = (x = [])"
| "str_contains x (c # s) = (take (length x) (c # s) = x \<or> str_contains x s)"

text \<open>\<open>s.endswith(x)\<close>.\<close>

definition endswith :: "string \<Rightarrow> string \<Rightarrow> bool" where
  "endswith s x \<longleftrightarrow> length x \<le> length s \<and> drop (length s - length x) s = x"

text \<open>\<open>os.path.join(a, b)\<close> (posixpath): an absolute \<open>b\<close> discards \<open>a\<close>.\<close>

definition os_path_join :: "string \<Rightarrow> string \<Rightarrow> string" where
  "os_path_join a b =
     (if b \<noteq> [] \<and> hd b = CHR ''/'' then b
      else if a = [] \<or> last a = CHR ''/'' then a @ b
      else a @ ''/'' @ b)"

text \<open>\<open>os.path.basename(p)\<close>: what follows the last slash.\<close>

definition os_path_basename :: "string \<Rightarrow> string" where
  "os_path_basename p = rev (takeWhile (\<lambda>c. c \<noteq> CHR ''/'') (rev p))"

text \<open>
  \<open>os.path.splitext(p)[1]\<close> (genericpath.\_splitext): the extension starts at the last
  dot of the last path component, unless only dots precede it in that component.
\<close>

definition splitext_ext :: "string \<Rightarrow> string" where
  "splitext_ext p =
     (let base = os_path_basename p;
          name = dropWhile (\<lambda>c. c = CHR ''.'') base;
          ext = rev (takeWhile (\<lambda>c. c \<noteq> CHR ''.'') (rev name))
      in if CHR ''.'' \<in> set name then CHR ''.'' # ext else [])"

section \<open>File contents and the external libraries\<close>

datatype json = JNull | JInt int | JStr string | JArr "json list"
  | JObj "(string \<times> json) list"

text \<open>
  A file either holds the JSON text of a value (what \<open>json.dump\<close> writes and
  \<open>json.load\<close> reads back) or any other bytes, on which \<open>json.load\<close> raises.
\<close>

datatype content = Bytes string | JsonText json

text \<open>
  A deck as python-pptx presents it: slides, each a list of shapes; a shape with a text
  frame carries its paragraphs, each a list of run texts.
\<close>

datatype shape = TextShape "string list list" | OtherShape

type_synonym slide = "shape list"
type_synonym deck = "slide list"

text \<open>
  What \<open>Presentation(path)\<close> does on a file's content: it raises (\<open>OpenFails\<close>), or
  it returns a deck whose slides then read without error (\<open>Opened\<close>), or it returns
  a deck whose slides raise when they are read (\<open>ReadFails\<close>).
\<close>

datatype pptx_result = OpenFails | ReadFails | Opened deck

text \<open>
  The outcome of one \<open>openai.Completion.create\<close> call: a response object with the
  texts of its choices, a response object that is falsy (an empty mapping), or one of the
  exception classes the caller distinguishes.
\<close>

datatype api_outcome = Response "string list" | EmptyResponse
  | AuthenticationError | TimeoutError | RateLimitError | OtherError

text \<open>
  The constants of \<open>dir_utils\<close> and \<open>file_utils\<close> and the two external libraries
  are parameters of the model. \<open>Completion_create i prompt\<close> is the outcome of the
  \<open>i\<close>-th call of the API, made with \<open>prompt\<close>.
\<close>

record env =
  UPLOAD_FOLDER :: string
  OUTPUT_FOLDER :: string
  FILE_FORMAT_INDEX :: int
  PRESENTATION_FILE_EXTENSION :: string
  OUTPUT_FILE_EXTENSION :: string
  Presentation :: "content \<Rightarrow> pptx_result"
  Completion_create :: "nat \<Rightarrow> string \<Rightarrow> api_outcome"

section \<open>The slide extractor (my\_presentation.py)\<close>

record MySlide =
  slide_number :: nat
  text_boxes :: "string list"

text \<open>
  A Python \<open>dict\<close> keeps insertion order: assigning to a present key replaces its
  value in place, assigning to a new key appends.
\<close>

fun dict_set :: "('k \<times> 'v) list \<Rightarrow> 'k \<Rightarrow> 'v \<Rightarrow> ('k \<times> 'v) list" where
  "dict_set [] k v = [(k, v)]"
| "dict_set ((k', v') # d) k v =
     (if k' = k then (k, v) # d else (k', v') # dict_set d k v)"

record MyPresentation =
  filepath :: string
  explanations :: "(nat \<times> string) list option"
  slides :: "(nat \<times> MySlide) list"

text \<open>The list comprehension of \<open>parse\<close> over one slide.\<close>

fun shape_runs :: "shape \<Rightarrow> string list" where
  "shape_runs (TextShape paragraphs) =
     [strip run. paragraph \<leftarrow> paragraphs, run \<leftarrow> paragraph, strip run \<noteq> []]"
| "shape_runs OtherShape = []"

definition slide_text_boxes :: "slide \<Rightarrow> string list" where
  "slide_text_boxes slide_obj = concat (map shape_runs slide_obj)"

text \<open>\<open>enumerate(xs, start=1)\<close>.\<close>

definition enumerate1 :: "'a list \<Rightarrow> (nat \<times> 'a) list" where
  "enumerate1 xs = zip [1..<Suc (length xs)] xs"

text \<open>
  The loop of \<open>parse\<close>: the slide is read again by its index, which the enumeration
  keeps in range.
\<close>

fun parse_slides :: "deck \<Rightarrow> (nat \<times> slide) list \<Rightarrow> (nat \<times> MySlide) list
    \<Rightarrow> (nat \<times> MySlide) list" where
  "parse_slides prs [] d = d"
| "parse_slides prs ((n, s) # rest) d =
     (let slide_obj = prs ! (n - 1);
          boxes = slide_text_boxes slide_obj
      in if boxes = [] then parse_slides prs rest d
         else parse_slides prs rest
                (dict_set d n \<lparr>slide_number = n, text_boxes = boxes\<rparr>))"

text \<open>
  \<open>MyPresentation.parse\<close>: a file that does not open (missing, or refused by the
  library) is reported on the console and the method returns with \<open>slides\<close> as it
  was; an error while reading the slides is not caught here.
\<close>

definition parse :: "env \<Rightarrow> (string \<times> content) list \<Rightarrow> MyPresentation
    \<Rightarrow> error + MyPresentation" where
  "parse e fs p =
     (case map_of fs (filepath p) of
        None \<Rightarrow> Inr p
      | Some c \<Rightarrow>
          (case Presentation e c of
             OpenFails \<Rightarrow> Inr p
           | ReadFails \<Rightarrow> Inl PptxReadError
           | Opened prs \<Rightarrow>
               Inr (p\<lparr>slides := parse_slides prs (enumerate1 prs) (slides p)\<rparr>)))"

text \<open>The dataclass constructor \<open>MyPresentation(filepath=...)\<close> with its defaults.\<close>

definition new_presentation :: "string \<Rightarrow> MyPresentation" where
  "new_presentation path = \<lparr>filepath = path, explanations = None, slides = []\<rparr>"

section \<open>The explanation generator (my\_slide.py)\<close>

text \<open>\<open>str(n)\<close> for a natural number: its decimal digits.\<close>

fun str_nat :: "nat \<Rightarrow> string" where
  "str_nat n =
     (if n < 10 then [char_of (48 + n)]
      else str_nat (n div 10) @ [char_of (48 + n mod 10)])"

definition construct_prompt :: "MySlide \<Rightarrow> string" where
  "construct_prompt sl =
     ''Slide '' @ str_nat (slide_number sl) @ '':''
       @ concat (map (\<lambda>text_box. CHR 0x0A # text_box) (text_boxes sl))
       @ [CHR 0x0A, CHR 0x0A] @ ''AI, please explain the slide.''"

section \<open>The job store (database.py) and the shared state\<close>

record User =
  usr_id :: nat
  email :: string

record Upload =
  up_id :: nat
  uid :: string
  filename :: string
  upload_time :: nat
  finish_time :: "nat option"
  status :: "string option"
  user_id :: "nat option"

text \<open>
  What the processes share: the two tables, the files (an insertion-ordered map from
  paths to contents; directories hold files only and exist), the wall clock that
  \<open>datetime.now()\<close> reads and \<open>time.sleep\<close> advances, and the number of API calls
  made so far.
\<close>

record state =
  users :: "User list"
  uploads :: "Upload list"
  files :: "(string \<times> content) list"
  clock :: nat
  api_calls :: nat

text \<open>
  Importing \<open>database.database\<close> drops both tables and creates them again, in every
  process that starts.
\<close>

definition db_init :: "state \<Rightarrow> state" where
  "db_init s = s\<lparr>users := [], uploads := []\<rparr>"

text \<open>The next value of an integer primary key: one more than the largest in use.\<close>

definition next_id :: "nat list \<Rightarrow> nat" where
  "next_id ids = Suc (fold max ids 0)"

section \<open>The request loop of \<open>generate_explanation\<close>\<close>

text \<open>
  \<open>while not response\<close>: a truthy response ends the loop; a falsy one repeats the call
  at once; a rate-limit error sleeps 60 seconds and repeats; every other exception returns
  the empty string. The loop has no bound, so it is a partial function: \<open>None\<close> is the
  run that never returns.
\<close>

partial_function (option) request_loop :: "env \<Rightarrow> string \<Rightarrow> state \<Rightarrow> (string \<times> state) option" where
  "request_loop e prompt s =
     (let s' = s\<lparr>api_calls := Suc (api_calls s)\<rparr>
      in case Completion_create e (api_calls s) prompt of
           Response choices \<Rightarrow>
             Some (case choices of [] \<Rightarrow> [] | t # _ \<Rightarrow> strip t, s')
         | EmptyResponse \<Rightarrow> request_loop e prompt s'
         | AuthenticationError \<Rightarrow> Some ([], s')
         | TimeoutError \<Rightarrow> Some ([], s')
         | RateLimitError \<Rightarrow> request_loop e prompt (s'\<lparr>clock := clock s' + 60\<rparr>)
         | OtherError \<Rightarrow> Some ([], s'))"

declare request_loop.simps [code]

definition generate_explanation :: "env \<Rightarrow> MySlide \<Rightarrow> state \<Rightarrow> (string \<times> state) option" where
  "generate_explanation e sl s = request_loop e (construct_prompt sl) s"

section \<open>The worker (explainer.py)\<close>

text \<open>The loop of \<open>main\<close> over \<open>presentation.slides.items()\<close>, one call after the other.\<close>

fun explain_slides :: "env \<Rightarrow> (nat \<times> MySlide) list \<Rightarrow> (nat \<times> string) list \<Rightarrow> state
    \<Rightarrow> ((nat \<times> string) list \<times> state) option" where
  "explain_slides e [] acc s = Some (acc, s)"
| "explain_slides e ((n, sl) # rest) acc s =
     (case generate_explanation e sl s of
        None \<Rightarrow> None
      | Some (explanation, s') \<Rightarrow> explain_slides e rest (acc @ [(n, explanation)]) s')"

definition main :: "env \<Rightarrow> string \<Rightarrow> state \<Rightarrow> ((error + MyPresentation) \<times> state) option" where
  "main e pptxfile s =
     (case parse e (files s) (new_presentation pptxfile) of
        Inl err \<Rightarrow> Some (Inl err, s)
      | Inr presentation \<Rightarrow>
          (case explain_slides e (slides presentation) [] s of
             None \<Rightarrow> None
           | Some (exps, s') \<Rightarrow> Some (Inr (presentation\<lparr>explanations := Some exps\<rparr>), s')))"

text \<open>
  \<open>json.dump\<close> of the explanations: the encoder writes a named tuple as it writes any
  tuple, as an array of its fields.
\<close>

definition json_of_explanations :: "(nat \<times> string) list option \<Rightarrow> json" where
  "json_of_explanations x =
     (case x of None \<Rightarrow> JNull
      | Some exps \<Rightarrow> JArr (map (\<lambda>(n, explanation). JArr [JInt (int n), JStr explanation]) exps))"

definition process_upload_file :: "env \<Rightarrow> Upload \<Rightarrow> string \<Rightarrow> state
    \<Rightarrow> (string option \<times> state) option" where
  "process_upload_file e upload file_path s =
     (if map_of (files s) file_path \<noteq> None
         \<and> lower (splitext_ext (filename upload)) = PRESENTATION_FILE_EXTENSION e
      then (case main e file_path s of
              None \<Rightarrow> None
            | Some (Inl err, s') \<Rightarrow> Some (None, s')
            | Some (Inr presentation, s') \<Rightarrow>
                (let output_file_path =
                       os_path_join (OUTPUT_FOLDER e) (uid upload @ OUTPUT_FILE_EXTENSION e)
                 in Some (Some output_file_path,
                      s'\<lparr>files := dict_set (files s') output_file_path
                             (JsonText (json_of_explanations (explanations presentation)))\<rparr>)))
      else Some (None, s))"

definition update_upload_status :: "Upload \<Rightarrow> state \<Rightarrow> state" where
  "update_upload_status upload s =
     s\<lparr>uploads := map (\<lambda>u. if up_id u = up_id upload
                            then u\<lparr>status := Some ''done'', finish_time := Some (clock s)\<rparr>
                            else u) (uploads s)\<rparr>"

text \<open>The path at which the worker looks for the file of a job.\<close>

definition worker_file_path :: "env \<Rightarrow> Upload \<Rightarrow> string" where
  "worker_file_path e upload = os_path_join (UPLOAD_FOLDER e) (filename upload)"

text \<open>The \<open>for\<close> loop over the pending uploads fetched at the start of a scan.\<close>

fun process_pending :: "env \<Rightarrow> Upload list \<Rightarrow> state \<Rightarrow> state option" where
  "process_pending e [] s = Some s"
| "process_pending e (upload # rest) s =
     (case process_upload_file e upload (worker_file_path e upload) s of
        None \<Rightarrow> None
      | Some (output_file_path, s') \<Rightarrow>
          process_pending e rest
            (case output_file_path of
               None \<Rightarrow> s'
             | Some p \<Rightarrow> if p \<noteq> [] then update_upload_status upload s' else s'))"

text \<open>One iteration of the \<open>while True\<close> loop of the worker.\<close>

definition worker_scan :: "env \<Rightarrow> state \<Rightarrow> state option" where
  "worker_scan e s =
     (let pending_uploads = filter (\<lambda>u. status u = Some ''pending'') (uploads s)
      in if pending_uploads = [] then Some (s\<lparr>clock := clock s + 10\<rparr>)
         else (case process_pending e pending_uploads s of
                 None \<Rightarrow> None
               | Some s' \<Rightarrow> Some (s'\<lparr>clock := clock s' + 10\<rparr>)))"

section \<open>The upload and status services (server/main.py)\<close>

definition generate_filename :: "env \<Rightarrow> string \<Rightarrow> string \<Rightarrow> error + string" where
  "generate_filename e new_uid original_filename =
     (case py_index (split_on CHR ''.'' original_filename) (FILE_FORMAT_INDEX e) of
        Inl err \<Rightarrow> Inl err
      | Inr part \<Rightarrow> Inr (new_uid @ ''.'' @ part))"

definition save_file :: "env \<Rightarrow> content \<Rightarrow> string \<Rightarrow> state \<Rightarrow> state" where
  "save_file e file name s =
     s\<lparr>files := dict_set (files s) (os_path_join (UPLOAD_FOLDER e) name) file\<rparr>"

definition find_files :: "string list \<Rightarrow> string \<Rightarrow> string list" where
  "find_files fs u = filter (\<lambda>file. str_contains u file) fs"

text \<open>\<open>os.listdir(d)\<close>: the names of the files whose path is \<open>d\<close>, a slash and the name.\<close>

definition os_listdir :: "string \<Rightarrow> (string \<times> content) list \<Rightarrow> string list" where
  "os_listdir d fs =
     (let pre = os_path_join d []
      in [drop (length pre) p. (p, c) \<leftarrow> fs,
            take (length pre) p = pre \<and> drop (length pre) p \<noteq> []
              \<and> CHR ''/'' \<notin> set (drop (length pre) p)])"

definition get_explanation_from_file :: "env \<Rightarrow> string \<Rightarrow> state \<Rightarrow> error + json" where
  "get_explanation_from_file e output_filename s =
     (case map_of (files s) (os_path_join (OUTPUT_FOLDER e) output_filename) of
        None \<Rightarrow> Inl FileNotFoundError
      | Some (Bytes b) \<Rightarrow> Inl JSONDecodeError
      | Some (JsonText explanation) \<Rightarrow> Inr explanation)"

text \<open>
  \<open>create_user\<close> adds the new user to the session; the commit of \<open>create_upload\<close>
  writes it together with the upload.
\<close>

definition create_user :: "string \<Rightarrow> state \<Rightarrow> User \<times> state" where
  "create_user em s =
     (case find (\<lambda>u. email u = em) (users s) of
        Some user \<Rightarrow> (user, s)
      | None \<Rightarrow>
          (let user = \<lparr>usr_id = next_id (map usr_id (users s)), email = em\<rparr>
           in (user, s\<lparr>users := users s @ [user]\<rparr>)))"

text \<open>The column \<open>uid\<close> is unique: committing a second row with a stored uid raises.\<close>

definition create_upload :: "string \<Rightarrow> string \<Rightarrow> User option \<Rightarrow> state \<Rightarrow> error + Upload \<times> state" where
  "create_upload new_uid name user s =
     (let new_upload = \<lparr>up_id = next_id (map up_id (uploads s)), uid = new_uid,
                         filename = name, upload_time = clock s, finish_time = None,
                         status = Some ''pending'', user_id = map_option usr_id user\<rparr>
      in if new_uid \<in> set (map uid (uploads s)) then Inl IntegrityError
         else Inr (new_upload, s\<lparr>uploads := uploads s @ [new_upload]\<rparr>))"

text \<open>
  A POST to \<open>/upload\<close>: the attached file (its name and content), if any, and the
  \<open>email\<close> form field, if any.
\<close>

record request =
  req_file :: "(string \<times> content) option"
  req_email :: "string option"

text \<open>
  The handler of \<open>/upload\<close>; \<open>new_uid\<close> is the value \<open>uuid.uuid4()\<close> returns. A
  request without a file is answered with an error, as is one on which a call raises.
\<close>

definition upload :: "env \<Rightarrow> request \<Rightarrow> string \<Rightarrow> state \<Rightarrow> (error + string) \<times> state" where
  "upload e req new_uid s =
     (case req_file req of
        None \<Rightarrow> (Inl NoFileInRequest, s)
      | Some (original_filename, file) \<Rightarrow>
          (case generate_filename e new_uid original_filename of
             Inl err \<Rightarrow> (Inl err, s)
           | Inr name \<Rightarrow>
               (let s1 = save_file e file name s;
                    (user, s2) = (case req_email req of
                                    None \<Rightarrow> (None, s1)
                                  | Some em \<Rightarrow> (let (u, s') = create_user em s1 in (Some u, s')))
                in case create_upload new_uid original_filename user s2 of
                     Inl err \<Rightarrow> (Inl err, s1)
                   | Inr (new_upload, s3) \<Rightarrow> (Inr new_uid, s3))))"

text \<open>
  The JSON object of a status answer. The timestamps stand for their texts in
  \<open>TIME_FORMAT\<close>; \<open>explanation\<close> is the empty string or the content of the result file.
\<close>

record response =
  r_status :: "string option"
  r_filename :: string
  r_timestamp :: nat
  r_explanation :: json
  r_finish_time :: "nat option"

datatype answer = StatusOnly string | Full response

definition prepare_response :: "env \<Rightarrow> Upload option \<Rightarrow> state \<Rightarrow> error + response" where
  "prepare_response e upl s =
     (case upl of
        None \<Rightarrow> Inr \<lparr>r_status = None, r_filename = [], r_timestamp = clock s,
                      r_explanation = JStr [], r_finish_time = None\<rparr>
      | Some u \<Rightarrow>
          (let explanation =
                 (if status u = Some ''done''
                  then (case find_files (os_listdir (OUTPUT_FOLDER e) (files s)) (uid u) of
                          [] \<Rightarrow> Inr (JStr [])
                        | output_file # _ \<Rightarrow> get_explanation_from_file e output_file s)
                  else Inr (JStr []))
           in case explanation of
                Inl err \<Rightarrow> Inl err
              | Inr x \<Rightarrow> Inr \<lparr>r_status = status u, r_filename = filename u,
                               r_timestamp = upload_time u, r_explanation = x,
                               r_finish_time = finish_time u\<rparr>))"

text \<open>The handler of \<open>/status/<uid>\<close>.\<close>

definition get_status :: "env \<Rightarrow> string \<Rightarrow> state \<Rightarrow> error + answer" where
  "get_status e u s =
     (case find (\<lambda>r. uid r = u) (uploads s) of
        None \<Rightarrow> Inr (StatusOnly ''not found'')
      | Some upl \<Rightarrow>
          (case prepare_response e (Some upl) s of
             Inl err \<Rightarrow> Inl err
           | Inr r \<Rightarrow> Inr (Full r)))"



section \<open>The client (client.py)\<close>

definition is_valid_filepath :: "string option \<Rightarrow> bool" where
  "is_valid_filepath file_path \<longleftrightarrow>
     (case file_path of None \<Rightarrow> False | Some p \<Rightarrow> endswith p ''.pptx'')"

text \<open>
  \<open>SystemClient.upload\<close>: \<open>local\<close> is the client's own disk. An invalid path returns
  \<open>None\<close> before any request is made; otherwise the file is posted under its base name,
  with the email when it is a non-empty string, and an error answer raises.
\<close>

definition client_upload :: "env \<Rightarrow> (string \<times> content) list \<Rightarrow> string option \<Rightarrow> string option
    \<Rightarrow> string \<Rightarrow> state \<Rightarrow> (error + string option) \<times> state" where
  "client_upload e local file_path em new_uid s =
     (if \<not> is_valid_filepath file_path then (Inr None, s)
      else (case map_of local (the file_path) of
              None \<Rightarrow> (Inl FileNotFoundError, s)
            | Some file \<Rightarrow>
                (let req = \<lparr>req_file = Some (os_path_basename (the file_path), file),
                            req_email = (case em of None \<Rightarrow> None
                                         | Some a \<Rightarrow> if a = [] then None else Some a)\<rparr>
                 in case upload e req new_uid s of
                      (Inl err, s') \<Rightarrow> (Inl UploadException, s')
                    | (Inr u, s') \<Rightarrow> (Inr (Some u), s'))))"

section \<open>Runs of the system\<close>

datatype event = StartServer | StartWorker | UploadReq request string | WorkerScan
  | StatusReq string | LatestReq "string option" "string option" | Tick nat

text \<open>
  One event: a process starts (and imports the database module), the server handles a
  request, the worker makes one scan, or time passes. The status requests only read.
\<close>

definition step :: "env \<Rightarrow> event \<Rightarrow> state \<Rightarrow> state option" where
  "step e ev s =
     (case ev of
        StartServer \<Rightarrow> Some (db_init s)
      | StartWorker \<Rightarrow> Some (db_init s)
      | UploadReq req new_uid \<Rightarrow> Some (snd (upload e req new_uid s))
      | WorkerScan \<Rightarrow> worker_scan e s
      | StatusReq u \<Rightarrow> Some s
      | LatestReq name em \<Rightarrow> Some s
      | Tick d \<Rightarrow> Some (s\<lparr>clock := clock s + d\<rparr>))"

fun run :: "env \<Rightarrow> event list \<Rightarrow> state \<Rightarrow> state option" where
  "run e [] s = Some s"
| "run e (ev # evs) s = (case step e ev s of None \<Rightarrow> None | Some s' \<Rightarrow> run e evs s')"

section \<open>The specification's notions\<close>

text \<open>A slide has text when some run of some text-bearing shape is not blank.\<close>

definition has_text :: "slide \<Rightarrow> bool" where
  "has_text s \<longleftrightarrow>
     list_ex (\<lambda>sh. case sh of OtherShape \<Rightarrow> False
        | TextShape ps \<Rightarrow> list_ex (\<lambda>p. list_ex (\<lambda>run. strip run \<noteq> []) p) ps) s"

fun shape_paragraphs :: "shape \<Rightarrow> string list list" where
  "shape_paragraphs (TextShape ps) = ps"
| "shape_paragraphs OtherShape = []"

text \<open>
  The text of a slide as the specification words it: every run of every paragraph of
  every text-bearing shape, in that order, trimmed, the empty results dropped.
\<close>

definition spec_texts :: "slide \<Rightarrow> string list" where
  "spec_texts s =
     filter (\<lambda>t. t \<noteq> []) (map strip (concat (concat (map shape_paragraphs s))))"

text \<open>The numbers of the slides of a deck that have text, in deck order.\<close>

definition text_slide_numbers :: "deck \<Rightarrow> nat list" where
  "text_slide_numbers prs = filter (\<lambda>n. has_text (prs ! (n - 1))) [1..<Suc (length prs)]"





text \<open>A row survives when a row with its key and its upload data is still stored.\<close>

definition same_job :: "Upload \<Rightarrow> Upload \<Rightarrow> bool" where
  "same_job u u' \<longleftrightarrow>
     up_id u' = up_id u \<and> uid u' = uid u \<and> filename u' = filename u
     \<and> upload_time u' = upload_time u \<and> user_id u' = user_id u"

definition row_kept :: "Upload \<Rightarrow> state \<Rightarrow> bool" where
  "row_kept u s' \<longleftrightarrow> list_ex (same_job u) (uploads s')"

text \<open>
  What a call that only talks to the API may change: nothing but the call counter and
  the clock, which moves forward.
\<close>

definition only_time_passes :: "state \<Rightarrow> state \<Rightarrow> bool" where
  "only_time_passes s s' \<longleftrightarrow>
     users s' = users s \<and> uploads s' = uploads s \<and> files s' = files s \<and> clock s \<le> clock s'"



text \<open>An element of a result document in the shape the specification gives it.\<close>

fun is_explanation_object :: "json \<Rightarrow> bool" where
  "is_explanation_object (JObj [(k1, JInt n), (k2, JStr x)]) =
     (k1 = ''slide_number'' \<and> k2 = ''explanation'')"
| "is_explanation_object (JObj [(k1, JStr x), (k2, JInt n)]) =
     (k1 = ''explanation'' \<and> k2 = ''slide_number'')"
| "is_explanation_object j = False"

section \<open>Concrete inputs\<close>

definition demo_deck :: deck where
  "demo_deck = [[TextShape [['' Title '', ''  '']], OtherShape],
                [OtherShape, TextShape [[''   '']]],
                [TextShape [[''a''], [''b '', []]], TextShape [[''c'']]]]"

definition demo_pptx :: "content \<Rightarrow> pptx_result" where
  "demo_pptx c =
     (case c of
        Bytes b \<Rightarrow> if b = ''deck'' then Opened demo_deck
                   else if b = ''torn'' then ReadFails else OpenFails
      | JsonText j \<Rightarrow> OpenFails)"

definition demo_api :: "nat \<Rightarrow> string \<Rightarrow> api_outcome" where
  "demo_api i prompt = (if i < 2 then RateLimitError else Response ['' About '' @ take 7 prompt])"

definition demo_env :: env where
  "demo_env = \<lparr>UPLOAD_FOLDER = ''uploads'', OUTPUT_FOLDER = ''outputs'',
                FILE_FORMAT_INDEX = 1, PRESENTATION_FILE_EXTENSION = ''.pptx'',
                OUTPUT_FILE_EXTENSION = ''.json'', Presentation = demo_pptx,
                Completion_create = demo_api\<rparr>"

definition demo_state :: state where
  "demo_state = \<lparr>users = [], uploads = [], files = [], clock = 100, api_calls = 0\<rparr>"

definition demo_slide :: MySlide where
  "demo_slide = \<lparr>slide_number = 1, text_boxes = [''Title'']\<rparr>"

definition uid1 :: string where
  "uid1 = ''11111111-1111-4111-8111-111111111111''"

definition uid2 :: string where
  "uid2 = ''22222222-2222-4222-8222-222222222222''"

definition deck_request :: request where
  "deck_request = \<lparr>req_file = Some (''deck.pptx'', Bytes ''deck''), req_email = Some ''a@b.c''\<rparr>"

definition junk_request :: request where
  "junk_request = \<lparr>req_file = Some (''deck.pptx'', Bytes ''junk''), req_email = None\<rparr>"

definition torn_request :: request where
  "torn_request = \<lparr>req_file = Some (''deck.pptx'', Bytes ''torn''), req_email = None\<rparr>"

definition notes_request :: request where
  "notes_request = \<lparr>req_file = Some (''notes.txt'', Bytes ''hello''), req_email = None\<rparr>"

text \<open>A second upload whose file is named after the stored file of the first.\<close>

definition renamed_request :: request where
  "renamed_request = \<lparr>req_file = Some (uid1 @ ''.pptx'', Bytes ''other''),
                       req_email = Some ''a@b.c''\<rparr>"

text \<open>A result document in the shape the specification gives it.\<close>

definition is_result_document :: "json \<Rightarrow> bool" where
  "is_result_document j = (case j of JArr xs \<Rightarrow> list_all is_explanation_object xs | _ \<Rightarrow> False)"

text \<open>The state after the server has stored \<open>deck_request\<close> under \<open>uid1\<close>.\<close>

definition deck_uploaded :: state where
  "deck_uploaded =
     \<lparr>users = [\<lparr>usr_id = 1, email = ''a@b.c''\<rparr>],
      uploads = [\<lparr>up_id = 1, uid = uid1, filename = ''deck.pptx'', upload_time = 100,
                 finish_time = None, status = Some ''pending'', user_id = Some 1\<rparr>],
      files = [(''uploads/11111111-1111-4111-8111-111111111111.pptx'', Bytes ''deck'')],
      clock = 100, api_calls = 0\<rparr>"

definition notes_uploaded :: state where
  "notes_uploaded =
     \<lparr>users = [],
      uploads = [\<lparr>up_id = 1, uid = uid1, filename = ''notes.txt'', upload_time = 100,
                 finish_time = None, status = Some ''pending'', user_id = None\<rparr>],
      files = [(''uploads/11111111-1111-4111-8111-111111111111.txt'', Bytes ''hello'')],
      clock = 100, api_calls = 0\<rparr>"

text \<open>
  Two uploads and a scan: the second file is named after the stored file of the first,
  so the worker finds a file under the name recorded on the second job.
\<close>

definition two_uploads :: "request \<Rightarrow> event list" where
  "two_uploads first =
     [StartServer, UploadReq first uid1, Tick 5, UploadReq renamed_request uid2, WorkerScan]"

text \<open>What a test of a final state looks at: the jobs' lifecycle fields and a file.\<close>

definition jobs_and_file :: "string \<Rightarrow> state option \<Rightarrow> ((string \<times> string option \<times> nat option) list
    \<times> content option) option" where
  "jobs_and_file path r =
     map_option (\<lambda>s. (map (\<lambda>u. (uid u, status u, finish_time u)) (uploads s),
                       map_of (files s) path)) r"

text \<open>
  The strings \<open>str(uuid.uuid4())\<close> returns: 36 characters, hexadecimal digits and
  hyphens. A result file is named by such a string and the extension \<open>.json\<close>.
\<close>

definition uuid_shaped :: "string \<Rightarrow> bool" where
  "uuid_shaped u \<longleftrightarrow> length u = 36 \<and> list_all (\<lambda>c. c \<in> set ''0123456789abcdef-'') u"

definition result_name :: "string \<Rightarrow> bool" where
  "result_name f \<longleftrightarrow> endswith f ''.json'' \<and> uuid_shaped (take (length f - 5) f)"

definition no_file_request :: request where
  "no_file_request = \<lparr>req_file = None, req_email = Some ''a@b.c''\<rparr>"


text \<open>A job marked done whose result file is not there; another job's file is.\<close>

definition done_job :: Upload where
  "done_job = \<lparr>up_id = 1, uid = uid1, filename = ''deck.pptx'', upload_time = 100,
               finish_time = Some 230, status = Some ''done'', user_id = None\<rparr>"

definition done_no_doc :: state where
  "done_no_doc =
     \<lparr>users = [], uploads = [done_job],
      files = [(''uploads/deck.pptx'', Bytes ''deck''),
               (''outputs/22222222-2222-4222-8222-222222222222.json'', JsonText (JArr [])),
               (''outputs/readme.txt'', Bytes ''results'')],
      clock = 240, api_calls = 4\<rparr>"

text \<open>The same job with nothing in the output directory but a copy of an old result.\<close>

definition done_with_backup :: state where
  "done_with_backup =
     \<lparr>users = [], uploads = [done_job],
      files = [(''outputs/11111111-1111-4111-8111-111111111111.json.bak'', Bytes ''old'')],
      clock = 240, api_calls = 4\<rparr>"

text \<open>
  The state before the scan of \<open>two_uploads deck_request\<close>, the second job, the
  result document the scan writes for it, and the state after the scan.
\<close>

definition renamed_job :: Upload where
  "renamed_job = \<lparr>up_id = 2, uid = uid2, filename = ''11111111-1111-4111-8111-111111111111.pptx'',
                   upload_time = 105, finish_time = None, status = Some ''pending'',
                   user_id = Some 1\<rparr>"

definition renamed_uploaded :: state where
  "renamed_uploaded =
     \<lparr>users = [\<lparr>usr_id = 1, email = ''a@b.c''\<rparr>],
      uploads = [\<lparr>up_id = 1, uid = uid1, filename = ''deck.pptx'', upload_time = 100,
                 finish_time = None, status = Some ''pending'', user_id = Some 1\<rparr>,
                renamed_job],
      files = [(''uploads/11111111-1111-4111-8111-111111111111.pptx'', Bytes ''deck''),
               (''uploads/22222222-2222-4222-8222-222222222222.pptx'', Bytes ''other'')],
      clock = 105, api_calls = 0\<rparr>"

definition renamed_document :: json where
  "renamed_document = JArr [JArr [JInt 1, JStr ''About Slide 1''],
                            JArr [JInt 3, JStr ''About Slide 3'']]"

definition renamed_processed :: state where
  "renamed_processed =
     renamed_uploaded
       \<lparr>files := files renamed_uploaded
                   @ [(''outputs/22222222-2222-4222-8222-222222222222.json'',
                       JsonText renamed_document)],
        clock := 225, api_calls := 4\<rparr>"

definition renamed_done :: state where
  "renamed_done =
     renamed_processed
       \<lparr>uploads := [\<lparr>up_id = 1, uid = uid1, filename = ''deck.pptx'', upload_time = 100,
                      finish_time = None, status = Some ''pending'', user_id = Some 1\<rparr>,
                     renamed_job\<lparr>finish_time := Some 225, status := Some ''done''\<rparr>],
        clock := 235\<rparr>"

section \<open>The slide extractor keeps the slides with text, in order\<close>

lemma para_runs_empty:
  "(concat (map (\<lambda>run. if strip run \<noteq> [] then [strip run] else []) p) = [])
     \<longleftrightarrow> (\<forall>r\<in>set p. strip r = [])"
  by (induction p) auto

lemma shape_runs_empty:
  "shape_runs sh = [] \<longleftrightarrow>
     \<not> (case sh of OtherShape \<Rightarrow> False
        | TextShape ps \<Rightarrow> list_ex (\<lambda>p. list_ex (\<lambda>run. strip run \<noteq> []) p) ps)"
proof (cases sh)
  case (TextShape ps)
  show ?thesis unfolding TextShape
    by (induction ps) (auto simp: para_runs_empty list_ex_iff)
next
  case OtherShape
  then show ?thesis by simp
qed

lemma slide_text_boxes_empty: "slide_text_boxes s = [] \<longleftrightarrow> \<not> has_text s"
  unfolding slide_text_boxes_def has_text_def
  by (induction s) (simp_all add: shape_runs_empty)

lemma para_runs_spec:
  "concat (map (\<lambda>run. if strip run \<noteq> [] then [strip run] else []) p)
     = filter (\<lambda>t. t \<noteq> []) (map strip p)"
  by (induction p) simp_all

lemma shape_runs_spec:
  "shape_runs sh = filter (\<lambda>t. t \<noteq> []) (map strip (concat (shape_paragraphs sh)))"
proof (cases sh)
  case (TextShape ps)
  show ?thesis unfolding TextShape
    by (induction ps) (simp_all add: para_runs_spec)
next
  case OtherShape
  then show ?thesis by simp
qed

lemma slide_text_boxes_spec: "slide_text_boxes s = spec_texts s"
  unfolding slide_text_boxes_def spec_texts_def
  by (induction s) (simp_all add: shape_runs_spec)

lemma dict_set_fresh: "k \<notin> fst ` set d \<Longrightarrow> dict_set d k v = d @ [(k, v)]"
  by (induction d) auto

lemma map_of_dict_set: "map_of (dict_set d k v) k' = (if k' = k then Some v else map_of d k')"
  by (induction d) auto

lemma parse_slides_fresh:
  "distinct (map fst es) \<Longrightarrow> fst ` set es \<inter> fst ` set d = {} \<Longrightarrow>
   parse_slides prs es d =
     d @ map (\<lambda>n. (n, \<lparr>slide_number = n, text_boxes = slide_text_boxes (prs ! (n - 1))\<rparr>))
           (filter (\<lambda>n. slide_text_boxes (prs ! (n - 1)) \<noteq> []) (map fst es))"
proof (induction es arbitrary: d)
  case Nil
  then show ?case by simp
next
  case (Cons a es)
  obtain n s where a: "a = (n, s)" by (cases a)
  show ?case
  proof (cases "slide_text_boxes (prs ! (n - 1)) = []")
    case True
    with Cons a show ?thesis by (simp add: Let_def)
  next
    case False
    let ?v = "\<lparr>slide_number = n, text_boxes = slide_text_boxes (prs ! (n - 1))\<rparr>"
    have fresh: "n \<notin> fst ` set d" using Cons.prems a by auto
    have d2: "fst ` set es \<inter> fst ` set (d @ [(n, ?v)]) = {}"
      using Cons.prems a by auto
    have "parse_slides prs (a # es) d = parse_slides prs es (d @ [(n, ?v)])"
      using False a by (simp add: Let_def dict_set_fresh[OF fresh])
    also have "\<dots> = (d @ [(n, ?v)])
        @ map (\<lambda>n. (n, \<lparr>slide_number = n, text_boxes = slide_text_boxes (prs ! (n - 1))\<rparr>))
           (filter (\<lambda>n. slide_text_boxes (prs ! (n - 1)) \<noteq> []) (map fst es))"
      using Cons.IH[OF _ d2] Cons.prems by simp
    finally show ?thesis using False a by simp
  qed
qed

lemma enumerate1_keys: "map fst (enumerate1 xs) = [1..<Suc (length xs)]"
  by (simp add: enumerate1_def)

lemma nth_pred_upt: "map (\<lambda>n. xs ! (n - 1)) [1..<Suc (length xs)] = xs"
proof -
  have "[1..<Suc (length xs)] = map Suc [0..<length xs]"
    by (simp add: map_Suc_upt)
  then have "map (\<lambda>n. xs ! (n - 1)) [1..<Suc (length xs)] = map ((!) xs) [0..<length xs]"
    by (simp add: comp_def)
  then show ?thesis by (simp add: map_nth)
qed

lemma count_text_slides:
  "length (text_slide_numbers xs) = length xs - length (filter (\<lambda>s. \<not> has_text s) xs)"
proof -
  have "length (filter has_text (map (\<lambda>n. xs ! (n - 1)) [1..<Suc (length xs)]))
          = length (filter (\<lambda>n. has_text (xs ! (n - 1))) [1..<Suc (length xs)])"
    by (simp only: filter_map comp_def length_map)
  then have "length (text_slide_numbers xs) = length (filter has_text xs)"
    by (simp only: nth_pred_upt text_slide_numbers_def)
  moreover have "length (filter has_text xs) + length (filter (\<lambda>s. \<not> has_text s) xs)
      = length xs"
    by (rule sum_length_filter_compl)
  ultimately show ?thesis by arith
qed

lemma text_slide_numbers_sorted: "sorted_wrt (<) (text_slide_numbers prs)"
  unfolding text_slide_numbers_def by (rule sorted_wrt_filter) (rule sorted_wrt_upt)

lemma text_slide_numbers_range:
  "n \<in> set (text_slide_numbers prs) \<Longrightarrow> 1 \<le> n \<and> n \<le> length prs \<and> has_text (prs ! (n - 1))"
  unfolding text_slide_numbers_def by (auto simp del: upt_Suc)

lemma parse_opened:
  assumes "map_of fs path = Some c" and "Presentation e c = Opened prs"
  shows "parse e fs (new_presentation path) =
     Inr \<lparr>filepath = path, explanations = None,
          slides = map (\<lambda>n. (n, \<lparr>slide_number = n,
                                  text_boxes = slide_text_boxes (prs ! (n - 1))\<rparr>))
                     (text_slide_numbers prs)\<rparr>"
proof -
  have "distinct (map fst (enumerate1 prs))" by (simp add: enumerate1_keys)
  then have "parse_slides prs (enumerate1 prs) [] =
     map (\<lambda>n. (n, \<lparr>slide_number = n, text_boxes = slide_text_boxes (prs ! (n - 1))\<rparr>))
           (filter (\<lambda>n. slide_text_boxes (prs ! (n - 1)) \<noteq> []) [1..<Suc (length prs)])"
    using parse_slides_fresh[of "enumerate1 prs" "[]" prs]
    by (simp add: enumerate1_keys del: upt_Suc)
  then show ?thesis using assms
    by (simp add: parse_def new_presentation_def slide_text_boxes_empty
          text_slide_numbers_def del: upt_Suc)
qed

text \<open>
  C7. On a file that opens as a deck of N slides, K of them without any non-blank run,
  the extractor returns exactly N - K entries; their numbers are the positions (from 1)
  of the slides that have text, in increasing order; the entry numbered n carries the
  trimmed run texts of slide n in shape, paragraph and run order, the empty ones dropped.
\<close>

theorem extractor_entries:
  assumes "map_of fs path = Some c" and "Presentation e c = Opened prs"
  shows "\<exists>p. parse e fs (new_presentation path) = Inr p
     \<and> length (slides p) = length prs - length (filter (\<lambda>s. \<not> has_text s) prs)
     \<and> map fst (slides p) = text_slide_numbers prs
     \<and> sorted_wrt (<) (map fst (slides p))
     \<and> (\<forall>(n, sl) \<in> set (slides p). 1 \<le> n \<and> n \<le> length prs \<and> slide_number sl = n
           \<and> text_boxes sl = spec_texts (prs ! (n - 1)))"
proof -
  let ?p = "\<lparr>filepath = path, explanations = None,
          slides = map (\<lambda>n. (n, \<lparr>slide_number = n,
                                  text_boxes = slide_text_boxes (prs ! (n - 1))\<rparr>))
                     (text_slide_numbers prs)\<rparr>"
  have run: "parse e fs (new_presentation path) = Inr ?p"
    by (rule parse_opened[OF assms])
  have keys: "map fst (slides ?p) = text_slide_numbers prs" by (simp add: comp_def)
  have len: "length (slides ?p) = length prs - length (filter (\<lambda>s. \<not> has_text s) prs)"
    by (simp add: count_text_slides)
  have srt: "sorted_wrt (<) (map fst (slides ?p))"
    by (simp only: keys text_slide_numbers_sorted)
  have ents: "\<forall>(n, sl) \<in> set (slides ?p). 1 \<le> n \<and> n \<le> length prs \<and> slide_number sl = n
           \<and> text_boxes sl = spec_texts (prs ! (n - 1))"
    using text_slide_numbers_range[of _ prs] by (auto simp: slide_text_boxes_spec)
  show ?thesis using run keys len srt ents by blast
qed

theorem extractor_entries_witness:
  "map_of [(''uploads/deck.pptx'', Bytes ''deck'')] ''uploads/deck.pptx'' = Some (Bytes ''deck'')
   \<and> Presentation demo_env (Bytes ''deck'') = Opened demo_deck
   \<and> (\<exists>p. parse demo_env [(''uploads/deck.pptx'', Bytes ''deck'')]
              (new_presentation ''uploads/deck.pptx'') = Inr p
     \<and> length (slides p) = length demo_deck - length (filter (\<lambda>s. \<not> has_text s) demo_deck)
     \<and> map fst (slides p) = text_slide_numbers demo_deck
     \<and> sorted_wrt (<) (map fst (slides p))
     \<and> (\<forall>(n, sl) \<in> set (slides p). 1 \<le> n \<and> n \<le> length demo_deck \<and> slide_number sl = n
           \<and> text_boxes sl = spec_texts (demo_deck ! (n - 1))))
   \<and> text_slide_numbers demo_deck = [1, 3]"
proof -
  have h1: "map_of [(''uploads/deck.pptx'', Bytes ''deck'')] ''uploads/deck.pptx''
      = Some (Bytes ''deck'')" by simp
  have h2: "Presentation demo_env (Bytes ''deck'') = Opened demo_deck"
    by (simp add: demo_env_def demo_pptx_def)
  have h3: "text_slide_numbers demo_deck = [1, 3]"
    by code_simp
  show ?thesis using h1 h2 h3 extractor_entries[OF h1 h2] by blast
qed

section \<open>The retry policy of the explanation generator\<close>

lemma request_loop_rate_limited:
  "(\<forall>i<n. Completion_create e (api_calls s + i) prompt = RateLimitError) \<Longrightarrow>
   request_loop e prompt s
     = request_loop e prompt (s\<lparr>api_calls := api_calls s + n, clock := clock s + 60 * n\<rparr>)"
proof (induction n arbitrary: s)
  case 0
  then show ?case by simp
next
  case (Suc n)
  let ?s1 = "s\<lparr>api_calls := Suc (api_calls s), clock := clock s + 60\<rparr>"
  have first: "Completion_create e (api_calls s) prompt = RateLimitError"
    using Suc.prems[rule_format, of 0] by simp
  have rest: "\<forall>i<n. Completion_create e (api_calls ?s1 + i) prompt = RateLimitError"
  proof (intro allI impI)
    fix i assume "i < n"
    then have "Suc i < Suc n" by simp
    from Suc.prems[rule_format, OF this] show
      "Completion_create e (api_calls ?s1 + i) prompt = RateLimitError" by simp
  qed
  have "request_loop e prompt s = request_loop e prompt ?s1"
    by (subst request_loop.simps) (simp add: first)
  also have "\<dots> = request_loop e prompt
      (?s1\<lparr>api_calls := api_calls ?s1 + n, clock := clock ?s1 + 60 * n\<rparr>)"
    by (rule Suc.IH[OF rest])
  finally show ?case by (simp add: add.commute add.left_commute)
qed

lemma request_loop_never:
  assumes ret: "request_loop e prompt s = Some y"
  shows "\<exists>i. Completion_create e (api_calls s + i) prompt \<noteq> RateLimitError"
proof (rule request_loop.raw_induct[where
      P = "\<lambda>e prompt s y. \<exists>i. Completion_create e (api_calls s + i) prompt \<noteq> RateLimitError"
      and e = e and prompt = prompt and s = s and y = y])
  show "request_loop e prompt s = Some y" by (rule ret)
next
  fix f :: "env \<Rightarrow> string \<Rightarrow> state \<Rightarrow> (string \<times> state) option"
  fix e prompt s y
  assume IH: "\<And>e prompt s y. f e prompt s = Some y
      \<Longrightarrow> \<exists>i. Completion_create e (api_calls s + i) prompt \<noteq> RateLimitError"
  assume body: "(let s' = s\<lparr>api_calls := Suc (api_calls s)\<rparr>
      in case Completion_create e (api_calls s) prompt of
           Response choices \<Rightarrow>
             Some (case choices of [] \<Rightarrow> [] | t # _ \<Rightarrow> strip t, s')
         | EmptyResponse \<Rightarrow> f e prompt s'
         | AuthenticationError \<Rightarrow> Some ([], s')
         | TimeoutError \<Rightarrow> Some ([], s')
         | RateLimitError \<Rightarrow> f e prompt (s'\<lparr>clock := clock s' + 60\<rparr>)
         | OtherError \<Rightarrow> Some ([], s')) = Some y"
  show "\<exists>i. Completion_create e (api_calls s + i) prompt \<noteq> RateLimitError"
  proof (cases "Completion_create e (api_calls s) prompt = RateLimitError")
    case True
    with body have "f e prompt (s\<lparr>api_calls := Suc (api_calls s), clock := clock s + 60\<rparr>) = Some y"
      by (simp add: Let_def)
    from IH[OF this] obtain i where
      "Completion_create e (Suc (api_calls s) + i) prompt \<noteq> RateLimitError" by auto
    then have "Completion_create e (api_calls s + Suc i) prompt \<noteq> RateLimitError" by simp
    then show ?thesis by blast
  next
    case False
    then have "Completion_create e (api_calls s + 0) prompt \<noteq> RateLimitError" by simp
    then show ?thesis by blast
  qed
qed

lemma request_loop_frame:
  assumes ret: "request_loop e prompt s = Some y"
  shows "\<exists>a c. snd y = s\<lparr>api_calls := a, clock := c\<rparr> \<and> api_calls s < a \<and> clock s \<le> c"
proof (rule request_loop.raw_induct[where
      P = "\<lambda>e prompt s y. \<exists>a c. snd y = s\<lparr>api_calls := a, clock := c\<rparr> \<and> api_calls s < a \<and> clock s \<le> c"
      and e = e and prompt = prompt and s = s and y = y])
  show "request_loop e prompt s = Some y" by (rule ret)
next
  fix f :: "env \<Rightarrow> string \<Rightarrow> state \<Rightarrow> (string \<times> state) option"
  fix e prompt s y
  assume IH: "\<And>e prompt s y. f e prompt s = Some y
      \<Longrightarrow> \<exists>a c. snd y = s\<lparr>api_calls := a, clock := c\<rparr> \<and> api_calls s < a \<and> clock s \<le> c"
  assume body: "(let s' = s\<lparr>api_calls := Suc (api_calls s)\<rparr>
      in case Completion_create e (api_calls s) prompt of
           Response choices \<Rightarrow>
             Some (case choices of [] \<Rightarrow> [] | t # _ \<Rightarrow> strip t, s')
         | EmptyResponse \<Rightarrow> f e prompt s'
         | AuthenticationError \<Rightarrow> Some ([], s')
         | TimeoutError \<Rightarrow> Some ([], s')
         | RateLimitError \<Rightarrow> f e prompt (s'\<lparr>clock := clock s' + 60\<rparr>)
         | OtherError \<Rightarrow> Some ([], s')) = Some y"
  have stay: "s\<lparr>api_calls := Suc (api_calls s)\<rparr> = s\<lparr>api_calls := Suc (api_calls s), clock := clock s\<rparr>"
    by simp
  show "\<exists>a c. snd y = s\<lparr>api_calls := a, clock := c\<rparr> \<and> api_calls s < a \<and> clock s \<le> c"
  proof (cases "Completion_create e (api_calls s) prompt")
    case (Response choices)
    with body have "snd y = s\<lparr>api_calls := Suc (api_calls s), clock := clock s\<rparr>"
      by (auto simp: Let_def)
    then show ?thesis by (intro exI[of _ "Suc (api_calls s)"] exI[of _ "clock s"]) simp
  next
    case EmptyResponse
    with body have "f e prompt (s\<lparr>api_calls := Suc (api_calls s)\<rparr>) = Some y"
      by (simp add: Let_def)
    from IH[OF this] obtain a c where
      "snd y = s\<lparr>api_calls := a, clock := c\<rparr>" "Suc (api_calls s) < a" "clock s \<le> c"
      by auto
    then show ?thesis by (intro exI[of _ a] exI[of _ c]) simp
  next
    case RateLimitError
    with body have "f e prompt (s\<lparr>api_calls := Suc (api_calls s), clock := clock s + 60\<rparr>) = Some y"
      by (simp add: Let_def)
    from IH[OF this] obtain a c where
      "snd y = s\<lparr>api_calls := a, clock := c\<rparr>" "Suc (api_calls s) < a" "clock s + 60 \<le> c"
      by auto
    then show ?thesis by (intro exI[of _ a] exI[of _ c]) simp
  next
    case AuthenticationError
    with body have "snd y = s\<lparr>api_calls := Suc (api_calls s), clock := clock s\<rparr>"
      by (auto simp: Let_def)
    then show ?thesis by (intro exI[of _ "Suc (api_calls s)"] exI[of _ "clock s"]) simp
  next
    case TimeoutError
    with body have "snd y = s\<lparr>api_calls := Suc (api_calls s), clock := clock s\<rparr>"
      by (auto simp: Let_def)
    then show ?thesis by (intro exI[of _ "Suc (api_calls s)"] exI[of _ "clock s"]) simp
  next
    case OtherError
    with body have "snd y = s\<lparr>api_calls := Suc (api_calls s), clock := clock s\<rparr>"
      by (auto simp: Let_def)
    then show ?thesis by (intro exI[of _ "Suc (api_calls s)"] exI[of _ "clock s"]) simp
  qed
qed


text \<open>
  C9. After any number n of rate-limit errors in a row the generator has slept 60 time
  units for each of them and calls the API again: there is no cap, and with rate-limit
  errors only it never returns. An authentication failure, a timeout or any other API
  error ends the loop at once with the empty string; a response ends it with the trimmed
  text of its first choice.
\<close>

theorem explanation_retry_policy:
  assumes "\<forall>i<n. Completion_create e (api_calls s + i) (construct_prompt sl) = RateLimitError"
  shows "(Completion_create e (api_calls s + n) (construct_prompt sl)
            \<in> {AuthenticationError, TimeoutError, OtherError}
          \<longrightarrow> generate_explanation e sl s
                = Some ([], s\<lparr>api_calls := api_calls s + n + 1, clock := clock s + 60 * n\<rparr>))
       \<and> (\<forall>choices. Completion_create e (api_calls s + n) (construct_prompt sl) = Response choices
          \<longrightarrow> generate_explanation e sl s
                = Some (case choices of [] \<Rightarrow> [] | t # _ \<Rightarrow> strip t,
                        s\<lparr>api_calls := api_calls s + n + 1, clock := clock s + 60 * n\<rparr>))
       \<and> ((\<forall>i. Completion_create e (api_calls s + i) (construct_prompt sl) = RateLimitError)
          \<longrightarrow> generate_explanation e sl s = None)"
proof -
  let ?p = "construct_prompt sl"
  let ?sn = "s\<lparr>api_calls := api_calls s + n, clock := clock s + 60 * n\<rparr>"
  have skip: "generate_explanation e sl s = request_loop e ?p ?sn"
    unfolding generate_explanation_def by (rule request_loop_rate_limited[OF assms])
  have fail: "Completion_create e (api_calls s + n) ?p
            \<in> {AuthenticationError, TimeoutError, OtherError}
          \<longrightarrow> generate_explanation e sl s
                = Some ([], s\<lparr>api_calls := api_calls s + n + 1, clock := clock s + 60 * n\<rparr>)"
    unfolding skip by (subst request_loop.simps) (auto simp: Let_def)
  have ok: "\<forall>choices. Completion_create e (api_calls s + n) ?p = Response choices
          \<longrightarrow> generate_explanation e sl s
                = Some (case choices of [] \<Rightarrow> [] | t # _ \<Rightarrow> strip t,
                        s\<lparr>api_calls := api_calls s + n + 1, clock := clock s + 60 * n\<rparr>)"
    unfolding skip by (subst request_loop.simps) (auto simp: Let_def)
  have never: "(\<forall>i. Completion_create e (api_calls s + i) ?p = RateLimitError)
          \<longrightarrow> generate_explanation e sl s = None"
  proof
    assume all: "\<forall>i. Completion_create e (api_calls s + i) ?p = RateLimitError"
    show "generate_explanation e sl s = None"
    proof (cases "generate_explanation e sl s")
      case None
      then show ?thesis .
    next
      case (Some y)
      then have "request_loop e ?p s = Some y" by (simp add: generate_explanation_def)
      from request_loop_never[OF this] all show ?thesis by blast
    qed
  qed
  show ?thesis using fail ok never by blast
qed

theorem explanation_retry_policy_witness:
  "Completion_create demo_env (api_calls demo_state + 0) (construct_prompt demo_slide)
        = RateLimitError
   \<and> Completion_create demo_env (api_calls demo_state + 1) (construct_prompt demo_slide)
        = RateLimitError
   \<and> Completion_create demo_env (api_calls demo_state + 2) (construct_prompt demo_slide)
        = Response ['' About Slide 1'']
   \<and> generate_explanation demo_env demo_slide demo_state
        = Some (''About Slide 1'', demo_state\<lparr>api_calls := 3, clock := 220\<rparr>)"
proof -
  have h0: "Completion_create demo_env (api_calls demo_state + 0) (construct_prompt demo_slide)
      = RateLimitError"
    by (simp add: demo_env_def demo_api_def demo_state_def)
  have h1: "Completion_create demo_env (api_calls demo_state + 1) (construct_prompt demo_slide)
      = RateLimitError"
    by (simp add: demo_env_def demo_api_def demo_state_def)
  have h: "\<forall>i<2. Completion_create demo_env (api_calls demo_state + i)
      (construct_prompt demo_slide) = RateLimitError"
    by (simp add: demo_env_def demo_api_def demo_state_def)
  have r: "Completion_create demo_env (api_calls demo_state + 2) (construct_prompt demo_slide)
      = Response ['' About Slide 1'']"
    by code_simp
  have "generate_explanation demo_env demo_slide demo_state
        = Some (''About Slide 1'', demo_state\<lparr>api_calls := 3, clock := 220\<rparr>)"
    using explanation_retry_policy[OF h] r
    by (simp add: strip_def is_space_def demo_state_def)
  with h0 h1 r show ?thesis by blast
qed

section \<open>The services on concrete requests\<close>

text \<open>
  C1. The server stores an uploaded \<open>deck.pptx\<close> under the name made of the uid,
  while the worker looks for it under the original filename of the job row: the two paths
  differ, no file is at the worker's path, and the scan leaves the job pending. The same
  holds when \<open>FILE_FORMAT_INDEX\<close> is -1.
\<close>

theorem worker_reads_original_name:
  "upload demo_env deck_request uid1 demo_state = (Inr uid1, deck_uploaded)
   \<and> upload (demo_env\<lparr>FILE_FORMAT_INDEX := - 1\<rparr>) deck_request uid1 demo_state
       = (Inr uid1, deck_uploaded)
   \<and> map fst (files deck_uploaded) = [''uploads/11111111-1111-4111-8111-111111111111.pptx'']
   \<and> map (worker_file_path demo_env) (uploads deck_uploaded) = [''uploads/deck.pptx'']
   \<and> map_of (files deck_uploaded) ''uploads/deck.pptx'' = None
   \<and> worker_scan demo_env deck_uploaded = Some (deck_uploaded\<lparr>clock := 110\<rparr>)"
  by code_simp

text \<open>
  C2, as stated, fails: a process that starts imports the database module, which drops
  the tables; the job stored before is gone afterwards.
\<close>

theorem startup_drops_rows:
  "map uid (uploads deck_uploaded) = [uid1]
   \<and> map_option (\<lambda>s. map uid (uploads s)) (step demo_env StartWorker deck_uploaded) = Some []
   \<and> map_option (\<lambda>s. map uid (uploads s)) (step demo_env StartServer deck_uploaded) = Some []
   \<and> map_option users (step demo_env StartWorker deck_uploaded) = Some []"
  by code_simp

text \<open>
  C3. A job whose file the library cannot open: \<open>parse\<close> returns normally with no
  slides, the worker writes an empty result document and marks the job done. A file that
  opens and then fails while its slides are read leaves the job pending.
\<close>

theorem unopenable_file_marked_done:
  "Presentation demo_env (Bytes ''junk'') = OpenFails
   \<and> jobs_and_file ''outputs/22222222-2222-4222-8222-222222222222.json''
        (run demo_env (two_uploads junk_request) demo_state)
       = Some ([(uid1, Some ''pending'', None), (uid2, Some ''done'', Some 105)],
               Some (JsonText (JArr [])))
   \<and> Presentation demo_env (Bytes ''torn'') = ReadFails
   \<and> jobs_and_file ''outputs/22222222-2222-4222-8222-222222222222.json''
        (run demo_env (two_uploads torn_request) demo_state)
       = Some ([(uid1, Some ''pending'', None), (uid2, Some ''pending'', None)], None)"
  by code_simp

text \<open>
  C4, as stated, fails: the server takes a file named \<open>notes.txt\<close>, stores it,
  inserts a job and returns the uid.
\<close>

theorem wrong_extension_accepted:
  "\<not> endswith ''notes.txt'' ''.pptx''
   \<and> lower (splitext_ext ''notes.txt'') \<noteq> PRESENTATION_FILE_EXTENSION demo_env
   \<and> upload demo_env notes_request uid1 demo_state = (Inr uid1, notes_uploaded)
   \<and> map filename (uploads notes_uploaded) = [''notes.txt'']"
  by code_simp

text \<open>
  C5, as stated, fails: the elements of the result document are arrays of a number and
  a string, not objects with the keys \<open>slide_number\<close> and \<open>explanation\<close>.
\<close>

theorem result_document_holds_arrays:
  "jobs_and_file ''outputs/22222222-2222-4222-8222-222222222222.json''
        (run demo_env (two_uploads deck_request) demo_state)
       = Some ([(uid1, Some ''pending'', None), (uid2, Some ''done'', Some 225)],
               Some (JsonText (JArr [JArr [JInt 1, JStr ''About Slide 1''],
                                     JArr [JInt 3, JStr ''About Slide 3'']])))
   \<and> \<not> is_result_document (JArr [JArr [JInt 1, JStr ''About Slide 1''],
                                   JArr [JInt 3, JStr ''About Slide 3'']])"
  by code_simp

section \<open>Rejected uploads\<close>

text \<open>
  C4, amended. The server's handler rejects a request without a file: it answers with an
  error, returns no uid and leaves the state, so no job row is created. A file name
  without the extension \<open>.pptx\<close> is rejected by the client, whose \<open>upload\<close>
  returns \<open>None\<close> without sending a request, so the state is left as well.
\<close>

theorem upload_rejections:
  "(req_file req = None \<longrightarrow> upload e req new_uid s = (Inl NoFileInRequest, s))
   \<and> (\<not> is_valid_filepath file_path
        \<longrightarrow> client_upload e local file_path em new_uid s = (Inr None, s))
   \<and> (is_valid_filepath file_path \<longleftrightarrow> (\<exists>p. file_path = Some p \<and> endswith p ''.pptx''))"
  by (auto simp: upload_def client_upload_def is_valid_filepath_def split: option.splits)

theorem upload_rejections_witness:
  "req_file no_file_request = None
   \<and> upload demo_env no_file_request uid2 deck_uploaded = (Inl NoFileInRequest, deck_uploaded)
   \<and> \<not> is_valid_filepath (Some ''notes.txt'')
   \<and> client_upload demo_env [(''notes.txt'', Bytes ''hello'')] (Some ''notes.txt'') None uid2
        deck_uploaded = (Inr None, deck_uploaded)
   \<and> \<not> is_valid_filepath None
   \<and> client_upload demo_env [] None None uid2 deck_uploaded = (Inr None, deck_uploaded)"
proof -
  have h1: "req_file no_file_request = None" by (simp add: no_file_request_def)
  have h2: "\<not> is_valid_filepath (Some ''notes.txt'')" by code_simp
  have h3: "\<not> is_valid_filepath None" by code_simp
  have a: "upload demo_env no_file_request uid2 deck_uploaded
      = (Inl NoFileInRequest, deck_uploaded)"
    by (rule upload_rejections[THEN conjunct1, THEN mp, OF h1])
  have b: "client_upload demo_env [(''notes.txt'', Bytes ''hello'')] (Some ''notes.txt'') None
      uid2 deck_uploaded = (Inr None, deck_uploaded)"
    by (rule upload_rejections[THEN conjunct2, THEN conjunct1, THEN mp, OF h2])
  have c: "client_upload demo_env [] None None uid2 deck_uploaded = (Inr None, deck_uploaded)"
    by (rule upload_rejections[THEN conjunct2, THEN conjunct1, THEN mp, OF h3])
  show ?thesis by (intro conjI) (rule h1 a h2 b h3 c)+
qed

section \<open>The status service\<close>

lemma str_contains_iff: "str_contains x s \<longleftrightarrow> (\<exists>pre post. s = pre @ x @ post)"
proof (induction s)
  case Nil
  then show ?case by auto
next
  case (Cons c s)
  show ?case
  proof
    assume "str_contains x (c # s)"
    then consider "take (length x) (c # s) = x" | "str_contains x s" by auto
    then show "\<exists>pre post. c # s = pre @ x @ post"
    proof cases
      case 1
      then have "c # s = [] @ x @ drop (length x) (c # s)"
        using append_take_drop_id[of "length x" "c # s"] by simp
      then show ?thesis by blast
    next
      case 2
      with Cons.IH obtain pre post where "s = pre @ x @ post" by blast
      then have "c # s = (c # pre) @ x @ post" by simp
      then show ?thesis by blast
    qed
  next
    assume "\<exists>pre post. c # s = pre @ x @ post"
    then obtain pre post where eq: "c # s = pre @ x @ post" by blast
    show "str_contains x (c # s)"
    proof (cases pre)
      case Nil
      with eq have "take (length x) (c # s) = x" by simp
      then show ?thesis by simp
    next
      case (Cons d pre')
      with eq have "s = pre' @ x @ post" by simp
      with Cons.IH have "str_contains x s" by blast
      then show ?thesis by simp
    qed
  qed
qed

lemma uuid_no_dot:
  assumes "uuid_shaped u"
  shows "CHR ''.'' \<notin> set u"
proof
  assume d: "CHR ''.'' \<in> set u"
  have alphabet: "CHR ''.'' \<notin> set ''0123456789abcdef-''" by simp
  from assms have "\<forall>c\<in>set u. c \<in> set ''0123456789abcdef-''"
    unfolding uuid_shaped_def list_all_iff by (rule conjunct2)
  from this d have "CHR ''.'' \<in> set ''0123456789abcdef-''" by (rule bspec)
  with alphabet show False by (rule notE)
qed

lemma uuid_in_result_name:
  assumes u: "uuid_shaped u" and v: "uuid_shaped v" and c: "str_contains u (v @ ''.json'')"
  shows "v = u"
proof -
  from c obtain pre post where eq: "v @ ''.json'' = pre @ u @ post"
    unfolding str_contains_iff by blast
  have lu: "length u = 36" and lv: "length v = 36" using u v by (simp_all add: uuid_shaped_def)
  from eq have "length (v @ ''.json'') = length (pre @ u @ post)" by simp
  then have len: "length pre + length post = 5" using lu lv by simp
  show ?thesis
  proof (cases pre)
    case Nil
    with eq have "v @ ''.json'' = u @ post" by simp
    moreover have "length v = length u" using lu lv by simp
    ultimately show ?thesis using append_eq_append_conv[of v u "''.json''" post] by blast
  next
    case (Cons d pre')
    have dot: "(v @ ''.json'') ! 36 = CHR ''.''" using lv by (simp add: nth_append)
    have p1: "\<not> 36 < length pre" using len by simp
    have p2: "36 - length pre < length u" using lu Cons by simp
    have q1: "(pre @ u @ post) ! 36 = (u @ post) ! (36 - length pre)"
      using p1 by (simp only: nth_append if_False)
    have q2: "(u @ post) ! (36 - length pre) = u ! (36 - length pre)"
      using p2 by (simp only: nth_append if_True)
    from dot q1 q2 eq have "u ! (36 - length pre) = CHR ''.''" by simp
    with nth_mem[OF p2] have "CHR ''.'' \<in> set u" by simp
    with uuid_no_dot[OF u] show ?thesis by contradiction
  qed
qed

lemma result_name_split: "result_name f \<Longrightarrow> \<exists>v. uuid_shaped v \<and> f = v @ ''.json''"
proof -
  assume r: "result_name f"
  then have e: "endswith f ''.json''" and s: "uuid_shaped (take (length f - 5) f)"
    by (simp_all add: result_name_def)
  have five: "length ''.json'' = 5" by simp
  from e have "drop (length f - 5) f = ''.json''"
    unfolding endswith_def five by blast
  then have "f = take (length f - 5) f @ ''.json''"
    using append_take_drop_id[of "length f - 5" f] by simp
  with s show ?thesis by blast
qed

text \<open>
  In an output directory that holds only result files named by uuids, the substring test
  of \<open>find_files\<close> finds nothing for a uid whose own file is not there.
\<close>

lemma find_files_missing:
  assumes u: "uuid_shaped u" and names: "list_all result_name fs"
    and missing: "u @ ''.json'' \<notin> set fs"
  shows "find_files fs u = []"
proof -
  have "\<not> str_contains u f" if f: "f \<in> set fs" for f
  proof
    assume c: "str_contains u f"
    from names f have "result_name f" by (simp add: list_all_iff)
    from result_name_split[OF this] obtain v where v: "uuid_shaped v" "f = v @ ''.json''"
      by blast
    with uuid_in_result_name[OF u v(1)] c have "v = u" by simp
    with v f missing show False by simp
  qed
  then show ?thesis by (simp add: find_files_def filter_empty_conv)
qed

lemma find_Some_pred: "find P xs = Some x \<Longrightarrow> P x \<and> x \<in> set xs"
  by (induction xs) (auto split: if_splits)

text \<open>
  C10, as stated, fails: \<open>find_files\<close> takes any file whose name contains the uid
  for the result document. With only \<open><uid>.json.bak\<close> in the output directory the
  file \<open><uid>.json\<close> is missing, and \<open>get_status\<close> on the done job raises
  from \<open>json.load\<close> instead of answering.
\<close>

theorem backup_file_taken_for_document:
  "find (\<lambda>r. uid r = uid1) (uploads done_with_backup) = Some done_job
   \<and> status done_job = Some ''done''
   \<and> os_listdir (OUTPUT_FOLDER demo_env) (files done_with_backup)
        = [''11111111-1111-4111-8111-111111111111.json.bak'']
   \<and> map_of (files done_with_backup) ''outputs/11111111-1111-4111-8111-111111111111.json'' = None
   \<and> get_status demo_env uid1 done_with_backup = Inl JSONDecodeError"
  by code_simp

text \<open>
  C10, amended. For a job with status done, when no file name in the output directory
  contains the job's uid, \<open>get_status\<close> returns an answer, not an error and no other
  status: status done, the empty string as explanation, and the job's own name and times.
\<close>

theorem done_without_document:
  assumes "find (\<lambda>r. uid r = u) (uploads s) = Some upl"
    and "status upl = Some ''done''"
    and "find_files (os_listdir (OUTPUT_FOLDER e) (files s)) u = []"
  shows "get_status e u s =
     Inr (Full \<lparr>r_status = Some ''done'', r_filename = filename upl,
                r_timestamp = upload_time upl, r_explanation = JStr [],
                r_finish_time = finish_time upl\<rparr>)"
proof -
  have "uid upl = u" using find_Some_pred[OF assms(1)] by simp
  then have "prepare_response e (Some upl) s =
     Inr \<lparr>r_status = Some ''done'', r_filename = filename upl,
          r_timestamp = upload_time upl, r_explanation = JStr [],
          r_finish_time = finish_time upl\<rparr>"
    using assms(2) assms(3) by (simp add: prepare_response_def)
  then show ?thesis using assms(1) by (simp add: get_status_def)
qed

theorem done_without_document_witness:
  "find (\<lambda>r. uid r = uid1) (uploads done_no_doc) = Some done_job
   \<and> status done_job = Some ''done''
   \<and> os_listdir (OUTPUT_FOLDER demo_env) (files done_no_doc)
        = [''22222222-2222-4222-8222-222222222222.json'', ''readme.txt'']
   \<and> find_files (os_listdir (OUTPUT_FOLDER demo_env) (files done_no_doc)) uid1 = []
   \<and> get_status demo_env uid1 done_no_doc =
       Inr (Full \<lparr>r_status = Some ''done'', r_filename = filename done_job,
                r_timestamp = upload_time done_job, r_explanation = JStr [],
                r_finish_time = finish_time done_job\<rparr>)"
proof -
  have h1: "find (\<lambda>r. uid r = uid1) (uploads done_no_doc) = Some done_job" by code_simp
  have h2: "status done_job = Some ''done''" by code_simp
  have h3: "find_files (os_listdir (OUTPUT_FOLDER demo_env) (files done_no_doc)) uid1 = []"
    by code_simp
  have h4: "os_listdir (OUTPUT_FOLDER demo_env) (files done_no_doc)
        = [''22222222-2222-4222-8222-222222222222.json'', ''readme.txt'']" by code_simp
  show ?thesis
    by (intro conjI) (rule h1 h2 h3 h4 done_without_document[OF h1 h2 h3])+
qed

section \<open>The latest upload of a user\<close>







section \<open>What processing a job changes\<close>

lemma only_time_passes_refl: "only_time_passes s s"
  by (simp add: only_time_passes_def)

lemma only_time_passes_trans:
  "only_time_passes s s1 \<Longrightarrow> only_time_passes s1 s2 \<Longrightarrow> only_time_passes s s2"
  by (simp add: only_time_passes_def)

lemma generate_explanation_frame:
  assumes "generate_explanation e sl s = Some (x, s')"
  shows "only_time_passes s s'"
proof -
  from assms have "request_loop e (construct_prompt sl) s = Some (x, s')"
    by (simp add: generate_explanation_def)
  from request_loop_frame[OF this] obtain a c where
    "s' = s\<lparr>api_calls := a, clock := c\<rparr>" and "clock s \<le> c" by auto
  then show ?thesis by (simp add: only_time_passes_def)
qed

lemma explain_slides_frame:
  "explain_slides e sls acc s = Some (exps, s') \<Longrightarrow>
   only_time_passes s s' \<and> map fst exps = map fst acc @ map fst sls"
proof (induction sls arbitrary: acc s)
  case Nil
  then show ?case by (simp add: only_time_passes_refl)
next
  case (Cons a sls)
  obtain n sl where a: "a = (n, sl)" by (cases a)
  from Cons.prems a obtain x s1 where
    g: "generate_explanation e sl s = Some (x, s1)" and
    r: "explain_slides e sls (acc @ [(n, x)]) s1 = Some (exps, s')"
    by (auto split: option.splits)
  from Cons.IH[OF r] have "only_time_passes s1 s'"
    and "map fst exps = map fst (acc @ [(n, x)]) @ map fst sls" by simp_all
  with generate_explanation_frame[OF g] a show ?case
    by (auto intro: only_time_passes_trans)
qed

lemma main_frame:
  assumes "main e path s = Some (r, s')"
  shows "only_time_passes s s'"
proof (cases "parse e (files s) (new_presentation path)")
  case (Inl err)
  with assms show ?thesis by (simp add: main_def only_time_passes_refl)
next
  case (Inr p)
  with assms obtain exps where "explain_slides e (slides p) [] s = Some (exps, s')"
    by (auto simp: main_def split: option.splits)
  from explain_slides_frame[OF this] show ?thesis by simp
qed

lemma process_upload_file_frame:
  assumes "process_upload_file e upl path s = Some (out, s')"
  shows "users s' = users s \<and> uploads s' = uploads s \<and> clock s \<le> clock s'"
proof (cases "map_of (files s) path \<noteq> None
    \<and> lower (splitext_ext (filename upl)) = PRESENTATION_FILE_EXTENSION e")
  case False
  with assms show ?thesis by (auto simp: process_upload_file_def)
next
  case True
  with assms have "\<exists>r s1. main e path s = Some (r, s1) \<and> users s' = users s1
      \<and> uploads s' = uploads s1 \<and> clock s' = clock s1"
    by (auto simp: process_upload_file_def Let_def split: option.splits sum.splits)
  then obtain r s1 where m: "main e path s = Some (r, s1)"
    and s': "users s' = users s1" "uploads s' = uploads s1" "clock s' = clock s1"
    by blast
  from main_frame[OF m] s' show ?thesis by (simp add: only_time_passes_def)
qed

section \<open>The result document\<close>

lemma parse_unopened:
  assumes "map_of fs path = Some c" and "Presentation e c = OpenFails"
  shows "parse e fs (new_presentation path) = Inr (new_presentation path)"
  using assms by (simp add: parse_def new_presentation_def)

lemma parse_slide_numbers:
  assumes c: "map_of fs path = Some c" and p: "parse e fs (new_presentation path) = Inr p"
  shows "map fst (slides p)
     = (case Presentation e c of Opened prs \<Rightarrow> text_slide_numbers prs | _ \<Rightarrow> [])"
proof (cases "Presentation e c")
  case OpenFails
  with parse_unopened[OF c OpenFails] p show ?thesis by (auto simp: new_presentation_def)
next
  case ReadFails
  with c p show ?thesis by (simp add: parse_def new_presentation_def)
next
  case (Opened prs)
  with parse_opened[OF c Opened] p show ?thesis by (auto simp: comp_def)
qed

text \<open>
  C5, amended. When processing a job succeeds, the document is written under the job's
  uid with the output extension; it is a JSON array with one element per slide that has
  text, each element an array of the slide number and the explanation; the slide numbers
  are those of the deck's slides with text, in deck order, so strictly increasing (none
  when the file did not open).
\<close>

theorem result_document_in_slide_order:
  assumes "process_upload_file e upl path s = Some (Some out, s')"
  shows "out = os_path_join (OUTPUT_FOLDER e) (uid upl @ OUTPUT_FILE_EXTENSION e)
     \<and> (\<exists>exps. map_of (files s') out
                  = Some (JsonText (JArr (map (\<lambda>(n, x). JArr [JInt (int n), JStr x]) exps)))
          \<and> sorted_wrt (<) (map fst exps)
          \<and> map fst exps
              = (case map_option (Presentation e) (map_of (files s) path) of
                   Some (Opened prs) \<Rightarrow> text_slide_numbers prs | _ \<Rightarrow> []))"
proof -
  from assms have cond: "map_of (files s) path \<noteq> None"
    by (auto simp: process_upload_file_def split: if_splits)
  then obtain c where c: "map_of (files s) path = Some c" by blast
  from assms cond obtain presentation s1 where
    m: "main e path s = Some (Inr presentation, s1)" and
    out: "out = os_path_join (OUTPUT_FOLDER e) (uid upl @ OUTPUT_FILE_EXTENSION e)" and
    s': "s' = s1\<lparr>files := dict_set (files s1) out
                  (JsonText (json_of_explanations (explanations presentation)))\<rparr>"
    by (auto simp: process_upload_file_def Let_def split: option.splits sum.splits if_splits)
  from m obtain p exps where
    p: "parse e (files s) (new_presentation path) = Inr p" and
    ex: "explain_slides e (slides p) [] s = Some (exps, s1)" and
    pres: "presentation = p\<lparr>explanations := Some exps\<rparr>"
    by (auto simp: main_def split: sum.splits option.splits)
  from explain_slides_frame[OF ex] have keys: "map fst exps = map fst (slides p)" by simp
  have nums: "map fst exps
      = (case Presentation e c of Opened prs \<Rightarrow> text_slide_numbers prs | _ \<Rightarrow> [])"
    using parse_slide_numbers[OF c p] keys by simp
  have doc: "map_of (files s') out
      = Some (JsonText (JArr (map (\<lambda>(n, x). JArr [JInt (int n), JStr x]) exps)))"
    using s' pres by (simp add: map_of_dict_set json_of_explanations_def)
  have srt: "sorted_wrt (<) (map fst exps)"
    unfolding nums by (cases "Presentation e c") (simp_all add: text_slide_numbers_sorted)
  have nums': "map fst exps
      = (case map_option (Presentation e) (map_of (files s) path) of
           Some (Opened prs) \<Rightarrow> text_slide_numbers prs | _ \<Rightarrow> [])"
    using nums c by (cases "Presentation e c") simp_all
  from out doc srt nums' show ?thesis by blast
qed

theorem result_document_in_slide_order_witness:
  "process_upload_file demo_env renamed_job
      ''uploads/11111111-1111-4111-8111-111111111111.pptx'' renamed_uploaded
     = Some (Some ''outputs/22222222-2222-4222-8222-222222222222.json'', renamed_processed)
   \<and> ''outputs/22222222-2222-4222-8222-222222222222.json''
       = os_path_join (OUTPUT_FOLDER demo_env) (uid renamed_job @ OUTPUT_FILE_EXTENSION demo_env)
   \<and> (\<exists>exps. map_of (files renamed_processed)
                  ''outputs/22222222-2222-4222-8222-222222222222.json''
                  = Some (JsonText (JArr (map (\<lambda>(n, x). JArr [JInt (int n), JStr x]) exps)))
          \<and> sorted_wrt (<) (map fst exps)
          \<and> map fst exps
              = (case map_option (Presentation demo_env)
                       (map_of (files renamed_uploaded)
                          ''uploads/11111111-1111-4111-8111-111111111111.pptx'') of
                   Some (Opened prs) \<Rightarrow> text_slide_numbers prs | _ \<Rightarrow> []))
   \<and> map_of (files renamed_processed) ''outputs/22222222-2222-4222-8222-222222222222.json''
       = Some (JsonText renamed_document)"
proof -
  have h: "process_upload_file demo_env renamed_job
      ''uploads/11111111-1111-4111-8111-111111111111.pptx'' renamed_uploaded
     = Some (Some ''outputs/22222222-2222-4222-8222-222222222222.json'', renamed_processed)"
    by code_simp
  have d: "map_of (files renamed_processed) ''outputs/22222222-2222-4222-8222-222222222222.json''
       = Some (JsonText renamed_document)"
    by code_simp
  note r = result_document_in_slide_order[OF h]
  show ?thesis by (intro conjI) (rule h r[THEN conjunct1] r[THEN conjunct2] d)+
qed

section \<open>Rows are kept by requests and scans\<close>

lemma same_job_refl: "same_job u u"
  by (simp add: same_job_def)

lemma same_job_list_refl: "list_all2 same_job xs xs"
  by (simp add: list_all2_same same_job_refl)

lemma same_job_list_trans:
  "list_all2 same_job xs ys \<Longrightarrow> list_all2 same_job ys zs \<Longrightarrow> list_all2 same_job xs zs"
  by (auto simp: list_all2_conv_all_nth same_job_def)

lemma update_upload_status_rows:
  "users (update_upload_status a s) = users s
   \<and> list_all2 same_job (uploads s) (uploads (update_upload_status a s))"
  by (simp add: update_upload_status_def list_all2_map2 list_all2_same same_job_def)

lemma process_pending_rows:
  "process_pending e us s = Some s' \<Longrightarrow>
   users s' = users s \<and> list_all2 same_job (uploads s) (uploads s')"
proof (induction us arbitrary: s)
  case Nil
  then show ?case by (simp add: same_job_list_refl)
next
  case (Cons a us)
  let ?next = "\<lambda>out s1. case out of None \<Rightarrow> s1
      | Some p \<Rightarrow> if p \<noteq> [] then update_upload_status a s1 else s1"
  from Cons.prems obtain out s1 where
    p: "process_upload_file e a (worker_file_path e a) s = Some (out, s1)" and
    r: "process_pending e us (?next out s1) = Some s'"
    by (auto split: option.splits)
  from process_upload_file_frame[OF p] have f: "users s1 = users s" "uploads s1 = uploads s"
    by simp_all
  have n: "users (?next out s1) = users s1
      \<and> list_all2 same_job (uploads s1) (uploads (?next out s1))"
    using update_upload_status_rows[of a s1]
    by (cases out) (simp_all add: same_job_list_refl)
  from Cons.IH[OF r] have i: "users s' = users (?next out s1)"
    "list_all2 same_job (uploads (?next out s1)) (uploads s')" by simp_all
  from n i(2) have "list_all2 same_job (uploads s1) (uploads s')"
    by (blast intro: same_job_list_trans)
  with f n i(1) show ?case by simp
qed

lemma worker_scan_rows:
  assumes "worker_scan e s = Some s'"
  shows "users s' = users s \<and> list_all2 same_job (uploads s) (uploads s')"
proof (cases "filter (\<lambda>u. status u = Some ''pending'') (uploads s) = []")
  case True
  with assms show ?thesis by (auto simp: worker_scan_def same_job_list_refl)
next
  case False
  with assms obtain s1 where
    p: "process_pending e (filter (\<lambda>u. status u = Some ''pending'') (uploads s)) s = Some s1"
    and s': "s' = s1\<lparr>clock := clock s1 + 10\<rparr>"
    by (auto simp: worker_scan_def Let_def split: option.splits)
  from process_pending_rows[OF p] s' show ?thesis by simp
qed

lemma upload_rows:
  assumes "upload e req new_uid s = (r, s')"
  shows "clock s' = clock s \<and> (\<exists>extra. users s' = users s @ extra)
     \<and> (\<exists>new. uploads s' = uploads s @ new
          \<and> (new = [] \<or> (\<exists>n. new = [n] \<and> up_id n = next_id (map up_id (uploads s))
                 \<and> upload_time n = clock s \<and> finish_time n = None
                 \<and> status n = Some ''pending'')))"
  using assms
  by (auto simp: upload_def create_upload_def create_user_def save_file_def Let_def
      split: option.splits sum.splits prod.splits if_splits)

lemma kept_from_pairs:
  assumes "list_all2 same_job xs ys"
  shows "list_all (\<lambda>u. list_ex (same_job u) ys) xs"
proof -
  have "\<exists>v \<in> set ys. same_job u v" if "u \<in> set xs" for u
  proof -
    from that obtain i where i: "i < length xs" "xs ! i = u" by (auto simp: in_set_conv_nth)
    with assms have "same_job u (ys ! i)" "i < length ys"
      by (auto simp: list_all2_conv_all_nth)
    then show ?thesis by (auto intro: nth_mem)
  qed
  then show ?thesis by (simp add: list_all_iff list_ex_iff)
qed

lemma kept_from_append: "list_all (\<lambda>u. list_ex (same_job u) (xs @ new)) xs"
proof -
  have "\<exists>v \<in> set (xs @ new). same_job u v" if "u \<in> set xs" for u
    using that same_job_refl[of u] by auto
  then show ?thesis by (simp only: list_all_iff list_ex_iff) blast
qed

text \<open>
  C2, amended. No request to the server or the status service and no scan of the worker
  deletes a row: every job row stored before is stored afterwards under the same key
  with the same uid, filename, upload time and owner, and every user row is still
  there. Starting a process is the exception: it leaves both tables empty.
\<close>

theorem requests_keep_rows:
  assumes "ev \<noteq> StartServer" and "ev \<noteq> StartWorker" and "step e ev s = Some s'"
  shows "list_all (\<lambda>u. row_kept u s') (uploads s)
     \<and> list_all (\<lambda>u. u \<in> set (users s')) (users s)
     \<and> step e StartServer s = Some (db_init s) \<and> step e StartWorker s = Some (db_init s)
     \<and> uploads (db_init s) = [] \<and> users (db_init s) = []"
proof -
  have start: "step e StartServer s = Some (db_init s) \<and> step e StartWorker s = Some (db_init s)
     \<and> uploads (db_init s) = [] \<and> users (db_init s) = []"
    by (simp add: step_def db_init_def)
  have kept: "list_all (\<lambda>u. row_kept u s') (uploads s)
     \<and> list_all (\<lambda>u. u \<in> set (users s')) (users s)"
  proof (cases ev)
    case StartServer
    with assms(1) show ?thesis by simp
  next
    case StartWorker
    with assms(2) show ?thesis by simp
  next
    case (UploadReq req new_uid)
    with assms(3) have "snd (upload e req new_uid s) = s'" by (simp add: step_def)
    then have "upload e req new_uid s = (fst (upload e req new_uid s), s')"
      by (cases "upload e req new_uid s") auto
    from upload_rows[OF this] obtain extra new where
      "users s' = users s @ extra" "uploads s' = uploads s @ new" by blast
    then show ?thesis
      unfolding row_kept_def using kept_from_append[of "uploads s" new]
      by (simp add: list_all_iff)
  next
    case WorkerScan
    with assms(3) have "worker_scan e s = Some s'" by (simp add: step_def)
    from worker_scan_rows[OF this] have u: "users s' = users s"
      and p: "list_all2 same_job (uploads s) (uploads s')" by simp_all
    from kept_from_pairs[OF p] u show ?thesis by (simp add: row_kept_def list_all_iff)
  next
    case (StatusReq u)
    with assms(3) have "s' = s" by (simp add: step_def)
    then show ?thesis
      using kept_from_append[of "uploads s" "[]"] by (simp add: row_kept_def list_all_iff)
  next
    case (LatestReq name em)
    with assms(3) have "s' = s" by (simp add: step_def)
    then show ?thesis
      using kept_from_append[of "uploads s" "[]"] by (simp add: row_kept_def list_all_iff)
  next
    case (Tick d)
    with assms(3) have "uploads s' = uploads s" "users s' = users s" by (auto simp: step_def)
    then show ?thesis
      using kept_from_append[of "uploads s" "[]"] by (simp add: row_kept_def list_all_iff)
  qed
  from kept start show ?thesis by simp
qed

theorem requests_keep_rows_witness:
  "WorkerScan \<noteq> StartServer \<and> WorkerScan \<noteq> StartWorker
   \<and> step demo_env WorkerScan renamed_uploaded = Some renamed_done
   \<and> list_all (\<lambda>u. row_kept u renamed_done) (uploads renamed_uploaded)
   \<and> list_all (\<lambda>u. u \<in> set (users renamed_done)) (users renamed_uploaded)
   \<and> map uid (uploads renamed_uploaded) = [uid1, uid2]
   \<and> map uid (uploads renamed_done) = [uid1, uid2]"
proof -
  have h1: "WorkerScan \<noteq> StartServer" and h2: "WorkerScan \<noteq> StartWorker" by simp_all
  have h3: "step demo_env WorkerScan renamed_uploaded = Some renamed_done" by code_simp
  have c1: "map uid (uploads renamed_uploaded) = [uid1, uid2]" by code_simp
  have c2: "map uid (uploads renamed_done) = [uid1, uid2]" by code_simp
  note r = requests_keep_rows[OF h1 h2 h3]
  show ?thesis
    by (intro conjI) (rule h1 h2 h3 r[THEN conjunct1] r[THEN conjunct2, THEN conjunct1] c1 c2)+
qed

section \<open>The lifecycle of a job\<close>




















end
